theory Spec2Isabelle
  imports Main
begin

section \<open>The Go library functions used by \<^verbatim>\<open>lib/parser.go\<close>\<close>

text \<open>
  A Go \<^verbatim>\<open>string\<close> is a sequence of bytes, here a \<^typ>\<open>string\<close> (a list of 8-bit
  characters). A Go \<^verbatim>\<open>error\<close> is an interface value that is either \<^verbatim>\<open>nil\<close> or
  carries a message (\<^verbatim>\<open>err.Error()\<close>): here \<open>None\<close> or \<open>Some message\<close>.
\<close>

type_synonym error = "string option"

subsection \<open>Package \<^verbatim>\<open>strings\<close>\<close>

text \<open>\<^verbatim>\<open>strings.HasPrefix(s, prefix)\<close>:
  \<^verbatim>\<open>len(s) >= len(prefix) && s[:len(prefix)] == prefix\<close>.\<close>

definition HasPrefix :: "string \<Rightarrow> string \<Rightarrow> bool" where
  "HasPrefix s pre = (length pre \<le> length s \<and> take (length pre) s = pre)"

text \<open>\<^verbatim>\<open>strings.HasSuffix(s, suffix)\<close>.\<close>

definition HasSuffix :: "string \<Rightarrow> string \<Rightarrow> bool" where
  "HasSuffix s suf = (length suf \<le> length s \<and> drop (length s - length suf) s = suf)"

text \<open>\<^verbatim>\<open>strings.Index(s, substr)\<close>: the index of the first instance of \<open>substr\<close> in
  \<open>s\<close>; Go's \<open>-1\<close> is \<open>None\<close>.\<close>

fun Index :: "string \<Rightarrow> string \<Rightarrow> nat option" where
  "Index [] substr = (if substr = [] then Some 0 else None)"
| "Index (c # s) substr =
     (if HasPrefix (c # s) substr then Some 0 else map_option Suc (Index s substr))"

text \<open>\<^verbatim>\<open>strings.Contains(s, substr)\<close> is \<^verbatim>\<open>Index(s, substr) >= 0\<close>.\<close>

definition Contains :: "string \<Rightarrow> string \<Rightarrow> bool" where
  "Contains s substr = (Index s substr \<noteq> None)"

text \<open>\<^verbatim>\<open>strings.TrimPrefix(s, prefix)\<close>: \<open>s\<close> without the leading \<open>prefix\<close>, and \<open>s\<close>
  itself when it does not start with \<open>prefix\<close>.\<close>

definition TrimPrefix :: "string \<Rightarrow> string \<Rightarrow> string" where
  "TrimPrefix s pre = (if HasPrefix s pre then drop (length pre) s else s)"

lemma Index_bound: "Index s sep = Some m \<Longrightarrow> m + length sep \<le> length s"
proof (induction s arbitrary: m)
  case Nil
  then show ?case by (simp split: if_splits)
next
  case (Cons c s)
  show ?case
  proof (cases "HasPrefix (c # s) sep")
    case True
    with Cons.prems show ?thesis by (simp add: HasPrefix_def)
  next
    case False
    with Cons.prems obtain k where "Index s sep = Some k" and "m = Suc k"
      by auto
    with Cons.IH [of k] show ?thesis by simp
  qed
qed

text \<open>
  \<^verbatim>\<open>strings.Split(s, sep)\<close> for a separator that is not empty, as \<^verbatim>\<open>genSplit\<close> computes
  it: while \<open>sep\<close> occurs in \<open>s\<close>, at index \<open>m\<close>, the piece \<^verbatim>\<open>s[:m]\<close> is appended and
  \<open>s\<close> becomes \<^verbatim>\<open>s[m+len(sep):]\<close>; what is left is the last piece. The program calls it
  with the separator \<^verbatim>\<open>" "\<close> only. (For the empty separator Go splits after each UTF-8
  sequence; the model splits after each byte there, which no call of this program
  reaches.)
\<close>

function Split :: "string \<Rightarrow> string \<Rightarrow> string list" where
  "Split s sep =
     (if sep = [] then map (\<lambda>c. [c]) s
      else case Index s sep of
             None \<Rightarrow> [s]
           | Some m \<Rightarrow> take m s # Split (drop (m + length sep) s) sep)"
  by pat_completeness auto
termination
proof (relation "measure (\<lambda>(s, sep). length s)")
  show "wf (measure (\<lambda>(s, sep). length s))" by simp
next
  fix s sep :: string and m :: nat
  assume sep: "sep \<noteq> []" and m: "Index s sep = Some m"
  from Index_bound [OF m] sep
  show "((drop (m + length sep) s, sep), (s, sep)) \<in> measure (\<lambda>(s, sep). length s)"
    by (cases sep) simp_all
qed

declare Split.simps [simp del]

text \<open>\<^verbatim>\<open>strings.Join(elems, sep)\<close>.\<close>

fun Join :: "string list \<Rightarrow> string \<Rightarrow> string" where
  "Join [] sep = []"
| "Join [e] sep = e"
| "Join (e # e' # es) sep = e @ sep @ Join (e' # es) sep"

text \<open>
  \<^verbatim>\<open>strings.TrimSpace(s)\<close> removes all leading and trailing white space, as Unicode
  defines it (\<^verbatim>\<open>unicode.IsSpace\<close>), from the UTF-8 text \<open>s\<close>. \<open>space_runes\<close> lists the
  UTF-8 encodings of the runes \<^verbatim>\<open>unicode.IsSpace\<close> accepts: the six ASCII ones
  (tab, line feed, vertical tab, form feed, carriage return, space), U+0085, U+00A0,
  U+1680, U+2000 to U+200A, U+2028, U+2029, U+202F, U+205F and U+3000. A byte sequence
  that is not the valid encoding of one of them decodes to another rune (or to
  \<^verbatim>\<open>utf8.RuneError\<close>) and stops the trimming.
\<close>

definition space_runes :: "string list" where
  "space_runes =
     [[CHR 0x09], [CHR 0x0A], [CHR 0x0B], [CHR 0x0C], [CHR 0x0D], [CHR 0x20],
      [CHR 0xC2, CHR 0x85], [CHR 0xC2, CHR 0xA0],
      [CHR 0xE1, CHR 0x9A, CHR 0x80],
      [CHR 0xE2, CHR 0x80, CHR 0x80], [CHR 0xE2, CHR 0x80, CHR 0x81],
      [CHR 0xE2, CHR 0x80, CHR 0x82], [CHR 0xE2, CHR 0x80, CHR 0x83],
      [CHR 0xE2, CHR 0x80, CHR 0x84], [CHR 0xE2, CHR 0x80, CHR 0x85],
      [CHR 0xE2, CHR 0x80, CHR 0x86], [CHR 0xE2, CHR 0x80, CHR 0x87],
      [CHR 0xE2, CHR 0x80, CHR 0x88], [CHR 0xE2, CHR 0x80, CHR 0x89],
      [CHR 0xE2, CHR 0x80, CHR 0x8A],
      [CHR 0xE2, CHR 0x80, CHR 0xA8], [CHR 0xE2, CHR 0x80, CHR 0xA9],
      [CHR 0xE2, CHR 0x80, CHR 0xAF], [CHR 0xE2, CHR 0x81, CHR 0x9F],
      [CHR 0xE3, CHR 0x80, CHR 0x80]]"

text \<open>The width in bytes of the white-space rune \<open>s\<close> starts with (ends with); 0 when
  its first (last) rune is not white space.\<close>

definition leading_space :: "string \<Rightarrow> nat" where
  "leading_space s = (case find (HasPrefix s) space_runes of None \<Rightarrow> 0 | Some r \<Rightarrow> length r)"

definition trailing_space :: "string \<Rightarrow> nat" where
  "trailing_space s = (case find (HasSuffix s) space_runes of None \<Rightarrow> 0 | Some r \<Rightarrow> length r)"

lemma leading_space_le: "leading_space s \<le> length s"
  by (auto simp: leading_space_def HasPrefix_def find_Some_iff split: option.splits)

lemma trailing_space_le: "trailing_space s \<le> length s"
  by (auto simp: trailing_space_def HasSuffix_def find_Some_iff split: option.splits)

function TrimLeftSpace :: "string \<Rightarrow> string" where
  "TrimLeftSpace s =
     (if leading_space s = 0 then s else TrimLeftSpace (drop (leading_space s) s))"
  by pat_completeness auto
termination
proof (relation "measure length")
  show "wf (measure (length :: string \<Rightarrow> nat))" by simp
next
  fix s :: string
  assume "leading_space s \<noteq> 0"
  with leading_space_le [of s]
  show "(drop (leading_space s) s, s) \<in> measure length" by simp
qed

function TrimRightSpace :: "string \<Rightarrow> string" where
  "TrimRightSpace s =
     (if trailing_space s = 0 then s
      else TrimRightSpace (take (length s - trailing_space s) s))"
  by pat_completeness auto
termination
proof (relation "measure length")
  show "wf (measure (length :: string \<Rightarrow> nat))" by simp
next
  fix s :: string
  assume "trailing_space s \<noteq> 0"
  with trailing_space_le [of s]
  show "(take (length s - trailing_space s) s, s) \<in> measure length" by simp
qed

declare TrimLeftSpace.simps [simp del] TrimRightSpace.simps [simp del]

definition TrimSpace :: "string \<Rightarrow> string" where
  "TrimSpace s = TrimRightSpace (TrimLeftSpace s)"

subsection \<open>Package \<^verbatim>\<open>strconv\<close>\<close>

text \<open>\<^verbatim>\<open>strconv.Itoa(i)\<close>: the decimal representation of \<open>i\<close>.\<close>

function decimal :: "nat \<Rightarrow> string" where
  "decimal n =
     (if n < 10 then [char_of (48 + n)]
      else decimal (n div 10) @ [char_of (48 + n mod 10)])"
  by pat_completeness auto
termination
  by (relation "measure (\<lambda>n. n)") auto

declare decimal.simps [simp del]

definition Itoa :: "int \<Rightarrow> string" where
  "Itoa i = (if i < 0 then CHR ''-'' # decimal (nat (- i)) else decimal (nat i))"

subsection \<open>Package \<^verbatim>\<open>net/http\<close>: headers, bodies, requests\<close>

text \<open>
  \<^verbatim>\<open>http.Header\<close> is \<^verbatim>\<open>map[string][]string\<close>. \<^verbatim>\<open>Get\<close> returns the first value stored
  under the key, and \<^verbatim>\<open>""\<close> when there is none; \<^verbatim>\<open>Set\<close> replaces the values under the
  key by the single given one. Both canonicalise the key first; the four keys this
  program passes (\<^verbatim>\<open>User-Agent\<close>, \<^verbatim>\<open>Referer\<close>, \<^verbatim>\<open>Npm-Session\<close>, \<^verbatim>\<open>Content-Length\<close>) are
  in canonical form already.
\<close>

type_synonym Header = "string \<rightharpoonup> string list"

definition Header_Get :: "Header \<Rightarrow> string \<Rightarrow> string" where
  "Header_Get h key = (case h key of None \<Rightarrow> [] | Some [] \<Rightarrow> [] | Some (v # vs) \<Rightarrow> v)"

definition Header_Set :: "Header \<Rightarrow> string \<Rightarrow> string \<Rightarrow> Header" where
  "Header_Set h key v = h(key \<mapsto> [v])"

text \<open>
  A request body is an \<^verbatim>\<open>io.ReadCloser\<close>: a stream that is read once. Its state is the
  bytes it has still to deliver (\<open>pending\<close>) and how it ends after them: with
  \<^verbatim>\<open>io.EOF\<close> (\<open>fault = None\<close>) or with a read error (\<open>fault = Some message\<close>).
  \<^verbatim>\<open>ioutil.ReadAll\<close> reads until the end: it returns the pending bytes with the read
  error, if any (\<^verbatim>\<open>io.EOF\<close> is not reported as an error), and leaves the stream with
  nothing more to deliver. \<^verbatim>\<open>ioutil.NopCloser(bytes.NewBuffer(buf))\<close> is a fresh stream that
  delivers \<open>buf\<close> and then ends with \<^verbatim>\<open>io.EOF\<close>.
\<close>

record ReadCloser =
  pending :: string
  fault :: error

definition ReadAll :: "ReadCloser \<Rightarrow> (string \<times> error) \<times> ReadCloser" where
  "ReadAll r = ((pending r, fault r), r\<lparr>pending := []\<rparr>)"

definition NopCloser :: "string \<Rightarrow> ReadCloser" where
  "NopCloser buf = \<lparr>pending = buf, fault = None\<rparr>"

text \<open>
  The fields of \<^verbatim>\<open>*http.Request\<close> the program reads or writes, and \<^verbatim>\<open>RequestURI\<close>, which
  it never reads: the request target of the request line, unmodified, as the client sent
  it. \<open>URL\<close> holds the text \<^verbatim>\<open>req.URL.String()\<close> returns: the server parses the target
  into \<^verbatim>\<open>req.URL\<close>, and \<^verbatim>\<open>String\<close> reassembles it with its path escaped anew, so the
  two texts can differ. In a request the HTTP server hands to a handler \<^verbatim>\<open>Header\<close>,
  \<^verbatim>\<open>URL\<close> and \<^verbatim>\<open>Body\<close> are never \<^verbatim>\<open>nil\<close>.
\<close>

record Request =
  Header :: Header
  RequestURI :: string
  URL :: string
  Body :: ReadCloser
  ContentLength :: int

section \<open>\<^verbatim>\<open>lib/parser.go\<close>\<close>

subsection \<open>The metadata and the two parsers\<close>

definition registryTypeNpm :: string where
  "registryTypeNpm = ''npm''"

definition registryTypeImage :: string where
  "registryTypeImage = ''harbor''"

text \<open>\<^verbatim>\<open>Metadata\<close> is a Go map: \<open>None\<close> is the \<^verbatim>\<open>nil\<close> map of the zero value
  \<^verbatim>\<open>RequestMeta{}\<close>, \<open>Some m\<close> a map that was made.\<close>

record RequestMeta =
  RegistryType :: string
  HasHit :: bool
  Metadata :: "(string \<rightharpoonup> string) option"

definition RequestMeta_zero :: RequestMeta where
  "RequestMeta_zero = \<lparr>RegistryType = [], HasHit = False, Metadata = None\<rparr>"

record Tags =
  Latest :: string

record npmPackMeta =
  Tags :: Tags

text \<open>
  A \<^verbatim>\<open>Parser\<close> is a function value \<^verbatim>\<open>func(req *http.Request) (RequestMeta, error)\<close>. It
  may write through the pointer it receives, so the model returns the state it leaves
  along with its two results. The chain is generic in that state \<open>'s\<close>: it is the
  request, and for a parser that is a closure whatever else the closure reaches.
\<close>

type_synonym 's Parser = "'s \<Rightarrow> (RequestMeta \<times> error) \<times> 's"

text \<open>
  \<^verbatim>\<open>NpmParser\<close>. \<^verbatim>\<open>json.Unmarshal\<close> into a fresh \<^verbatim>\<open>npmPackMeta\<close> is a parameter of the
  model, \<open>json_Unmarshal\<close>: it maps the bytes to the decoding error (\<open>Inl\<close>) or to the
  decoded value (\<open>Inr\<close>). \<^verbatim>\<open>strings.Split\<close> never returns an empty slice for a
  non-empty separator (lemma \<open>Split_not_Nil\<close>), so \<^verbatim>\<open>commands[0]\<close> is always in range.
\<close>

definition NpmParser :: "(string \<Rightarrow> string + npmPackMeta) \<Rightarrow> Request Parser" where
  "NpmParser json_Unmarshal req =
     (let userAgent = Header_Get (Header req) ''User-Agent'' in
      if Contains userAgent ''npm'' then
        (let npmCmd = Header_Get (Header req) ''Referer'' in
         if length npmCmd > 0 then
           (let commands = Split npmCmd '' '';
                command = TrimSpace (commands ! 0);
                attrs = Map.empty(''command'' \<mapsto> command);
                attrs = attrs(''path'' \<mapsto> URL req);
                attrs = attrs(''extra'' \<mapsto> TrimSpace (TrimPrefix npmCmd command));
                attrs = attrs(''session'' \<mapsto> Header_Get (Header req) ''Npm-Session'');
                meta = \<lparr>RegistryType = registryTypeNpm, HasHit = True, Metadata = Some attrs\<rparr>
            in
            if command = ''publish'' then
              (case ReadAll (Body req) of
                 ((buf, Some err), body') \<Rightarrow> ((RequestMeta_zero, Some err), req\<lparr>Body := body'\<rparr>)
               | ((buf, None), body') \<Rightarrow>
                   (case json_Unmarshal buf of
                      Inl err \<Rightarrow> ((RequestMeta_zero, Some err), req\<lparr>Body := body'\<rparr>)
                    | Inr npmMetaJSON \<Rightarrow>
                        ((meta\<lparr>Metadata := Some (attrs(''extra'' \<mapsto> Latest (Tags npmMetaJSON)))\<rparr>, None),
                         req\<lparr>Body := NopCloser buf,
                             ContentLength := int (length buf),
                             Header := Header_Set (Header req) ''Content-Length''
                                         (Itoa (int (length buf)))\<rparr>)))
            else ((meta, None), req))
         else ((RequestMeta_zero, None), req))
      else ((RequestMeta_zero, None), req))"

text \<open>\<^verbatim>\<open>HarborParser\<close>, the default: it sets \<^verbatim>\<open>RegistryType\<close> and \<^verbatim>\<open>HasHit\<close> and leaves
  \<^verbatim>\<open>Metadata\<close> the \<^verbatim>\<open>nil\<close> map.\<close>

definition HarborParser :: "Request Parser" where
  "HarborParser req =
     ((\<lparr>RegistryType = registryTypeImage, HasHit = True, Metadata = None\<rparr>, None), req)"

subsection \<open>The chain: a singly linked list of wrapped parsers\<close>

text \<open>
  \<^verbatim>\<open>ParserChain\<close> and \<^verbatim>\<open>parserWrapper\<close> hold pointers to wrappers, and \<^verbatim>\<open>Register\<close>
  writes through \<^verbatim>\<open>pc.tail\<close> into a wrapper that \<^verbatim>\<open>pc.head\<close> may alias. The model keeps
  the wrappers in an explicit store: a pointer is \<open>None\<close> (\<^verbatim>\<open>nil\<close>) or \<open>Some a\<close> with \<open>a\<close>
  the index of the wrapper in the store; \<^verbatim>\<open>&parserWrapper{...}\<close> allocates at the end of
  the store. A \<^verbatim>\<open>Parser\<close> field may hold the \<^verbatim>\<open>nil\<close> function value, \<open>None\<close>.
  Go has no dangling pointers: in every state the program reaches, a pointer that is
  not \<^verbatim>\<open>nil\<close> is the index of an allocated wrapper (\<open>chain_path\<close> below requires it).
  The methods are called on a chain that exists: the receiver \<^verbatim>\<open>pc\<close> is not \<^verbatim>\<open>nil\<close>.
\<close>

record 's parserWrapper =
  parser :: "'s Parser option"
  "next" :: "nat option"

type_synonym 's heap = "'s parserWrapper list"

record ParserChain =
  head :: "nat option"
  tail :: "nat option"

text \<open>The run-time panic of a dereferenced \<^verbatim>\<open>nil\<close> pointer.\<close>

datatype panic = NilDereference

text \<open>\<^verbatim>\<open>(pc *ParserChain) Register(parser Parser) error\<close>. The state is the store and the
  chain \<open>pc\<close> points to; the argument is \<open>prs\<close> here, \<open>parser\<close> being the name of the
  wrapper's field. With \<^verbatim>\<open>pc.head\<close> set and \<^verbatim>\<open>pc.tail\<close> \<^verbatim>\<open>nil\<close>, a state no sequence of
  \<^verbatim>\<open>Init\<close> and \<^verbatim>\<open>Register\<close> reaches, \<^verbatim>\<open>pc.tail.next\<close> panics.\<close>

definition Register ::
  "'s Parser option \<Rightarrow> 's heap \<times> ParserChain \<Rightarrow> panic + (error \<times> ('s heap \<times> ParserChain))" where
  "Register prs st =
     (case st of (h, pc) \<Rightarrow>
        if prs = None then Inr (Some ''nil parser'', (h, pc))
        else if head pc = None then
          (let new = length h;
               h = h @ [\<lparr>parser = prs, next = None\<rparr>];
               pc = pc\<lparr>head := Some new\<rparr>;
               pc = pc\<lparr>tail := head pc\<rparr>
           in Inr (None, (h, pc)))
        else
          (case tail pc of
             None \<Rightarrow> Inl NilDereference
           | Some t \<Rightarrow>
               (let new = length h;
                    h = h @ [\<lparr>parser = prs, next = None\<rparr>];
                    h = h[t := (h ! t)\<lparr>next := Some new\<rparr>];
                    pc = pc\<lparr>tail := next (h ! t)\<rparr>
                in Inr (None, (h, pc)))))"

text \<open>
  The loop of \<^verbatim>\<open>Parse\<close>, from the wrapper \<open>p\<close> on, with the messages recorded so far.
  On a store whose \<^verbatim>\<open>next\<close> pointers form a cycle the Go loop may run forever; the
  model then has the value \<open>None\<close>.
\<close>

partial_function (option) Parse_loop ::
  "'s heap \<Rightarrow> nat option \<Rightarrow> 's \<Rightarrow> string list \<Rightarrow> ((RequestMeta \<times> error) \<times> 's) option" where
  "Parse_loop h p req errs =
     (case p of
        None \<Rightarrow> Some ((RequestMeta_zero, Some (''no hit'' @ '':'' @ Join errs '';'')), req)
      | Some a \<Rightarrow>
          (case parser (h ! a) of
             None \<Rightarrow> Some ((RequestMeta_zero, Some (''no hit'' @ '':'' @ Join errs '';'')), req)
           | Some f \<Rightarrow>
               (case f req of
                  ((meta, Some err), req') \<Rightarrow> Parse_loop h (next (h ! a)) req' (errs @ [err])
                | ((meta, None), req') \<Rightarrow>
                    if HasHit meta then Some ((meta, None), req')
                    else Parse_loop h (next (h ! a)) req' errs)))"

declare Parse_loop.simps [code]

text \<open>\<^verbatim>\<open>(pc *ParserChain) Parse(req *http.Request) (RequestMeta, error)\<close>.\<close>

definition Parse ::
  "'s heap \<times> ParserChain \<Rightarrow> 's \<Rightarrow> ((RequestMeta \<times> error) \<times> 's) option" where
  "Parse st req =
     (case st of (h, pc) \<Rightarrow>
        if head pc = None then Some ((RequestMeta_zero, Some ''no parsers''), req)
        else Parse_loop h (head pc) req [])"

text \<open>\<^verbatim>\<open>(pc *ParserChain) Init() error\<close>.\<close>

definition Init ::
  "(string \<Rightarrow> string + npmPackMeta) \<Rightarrow> Request heap \<times> ParserChain \<Rightarrow>
     panic + (error \<times> (Request heap \<times> ParserChain))" where
  "Init json_Unmarshal st =
     (case st of (h, pc) \<Rightarrow>
        (let pc = pc\<lparr>head := None\<rparr>;
             pc = pc\<lparr>tail := None\<rparr>
         in case Register (Some (NpmParser json_Unmarshal)) (h, pc) of
              Inl p \<Rightarrow> Inl p
            | Inr (Some err, st') \<Rightarrow> Inr (Some err, st')
            | Inr (None, st') \<Rightarrow> Register (Some HarborParser) st'))"

subsection \<open>Well-formed chains\<close>

text \<open>
  \<open>chain_path h p as\<close>: following \<^verbatim>\<open>next\<close> from the pointer \<open>p\<close> visits exactly the
  allocated wrappers \<open>as\<close>, in this order, and then reaches \<^verbatim>\<open>nil\<close>.
\<close>

fun chain_path :: "'s heap \<Rightarrow> nat option \<Rightarrow> nat list \<Rightarrow> bool" where
  "chain_path h p [] = (p = None)"
| "chain_path h p (a # as) = (p = Some a \<and> a < length h \<and> chain_path h (next (h ! a)) as)"

text \<open>
  The invariant of a chain whose wrappers are \<open>as\<close>: they are linked from \<^verbatim>\<open>head\<close>
  without repetition, and \<^verbatim>\<open>tail\<close> points to the last of them. \<open>parsers_of h as\<close> is
  the ordered list of the parsers they hold.
\<close>

definition chain_inv :: "'s heap \<times> ParserChain \<Rightarrow> nat list \<Rightarrow> bool" where
  "chain_inv st as =
     (case st of (h, pc) \<Rightarrow>
        chain_path h (head pc) as \<and> distinct as \<and> (as \<noteq> [] \<longrightarrow> tail pc = Some (last as)))"

definition parsers_of :: "'s heap \<Rightarrow> nat list \<Rightarrow> 's Parser option list" where
  "parsers_of h as = map (\<lambda>a. parser (h ! a)) as"

text \<open>The loop of \<^verbatim>\<open>Parse\<close> read on the list of the parser fields along the chain.\<close>

fun Parse_seq ::
  "'s Parser option list \<Rightarrow> 's \<Rightarrow> string list \<Rightarrow> (RequestMeta \<times> error) \<times> 's" where
  "Parse_seq [] req errs = ((RequestMeta_zero, Some (''no hit'' @ '':'' @ Join errs '';'')), req)"
| "Parse_seq (None # ps) req errs =
     ((RequestMeta_zero, Some (''no hit'' @ '':'' @ Join errs '';'')), req)"
| "Parse_seq (Some f # ps) req errs =
     (case f req of
        ((meta, Some err), req') \<Rightarrow> Parse_seq ps req' (errs @ [err])
      | ((meta, None), req') \<Rightarrow>
          if HasHit meta then ((meta, None), req') else Parse_seq ps req' errs)"

text \<open>
  What the parsers \<open>fs\<close> do when they are invoked one after the other on the request
  \<open>req\<close>, each on the state the one before it left: \<open>never_hit\<close> says that every one of
  them returns an error or \<^verbatim>\<open>HasHit = false\<close>; \<open>run_all\<close> gives the messages of those
  that return an error, in order, and the state the last one leaves.
\<close>

fun never_hit :: "'s Parser list \<Rightarrow> 's \<Rightarrow> bool" where
  "never_hit [] req = True"
| "never_hit (f # fs) req =
     (case f req of ((meta, err), req') \<Rightarrow> (err \<noteq> None \<or> \<not> HasHit meta) \<and> never_hit fs req')"

fun run_all :: "'s Parser list \<Rightarrow> 's \<Rightarrow> string list \<times> 's" where
  "run_all [] req = ([], req)"
| "run_all (f # fs) req =
     (case f req of
        ((meta, None), req') \<Rightarrow> run_all fs req'
      | ((meta, Some err), req') \<Rightarrow> (case run_all fs req' of (errs, req'') \<Rightarrow> (err # errs, req'')))"

subsection \<open>The split the specification describes\<close>




subsection \<open>Example inputs\<close>

text \<open>
  Requests of an npm client, as the HTTP server delivers them, and what
  \<^verbatim>\<open>json.Unmarshal\<close> returns on the two bodies used: the manifest
  \<^verbatim>\<open>{"dist-tags":{"latest":"2.3.1"}}\<close> decodes, and the truncated text
  \<^verbatim>\<open>{"dist-tags":\<close> is rejected with \<^verbatim>\<open>unexpected end of JSON input\<close>.
\<close>

definition example_manifest :: string where
  "example_manifest = ''{\"dist-tags\":{\"latest\":\"2.3.1\"}}''"

definition example_Unmarshal :: "string \<Rightarrow> string + npmPackMeta" where
  "example_Unmarshal buf =
     (if buf = example_manifest then Inr \<lparr>Tags = \<lparr>Latest = ''2.3.1''\<rparr>\<rparr>
      else Inl ''unexpected end of JSON input'')"

definition npm_request :: "string \<Rightarrow> string \<Rightarrow> Request" where
  "npm_request invocation body =
     \<lparr>Header = [''User-Agent'' \<mapsto> [''npm/6.14.8 node/v12.18.3 linux x64''],
                ''Referer'' \<mapsto> [invocation],
                ''Npm-Session'' \<mapsto> [''1f2e3d4c5b6a7988'']],
      RequestURI = ''/some-pkg'',
      URL = ''/some-pkg'',
      Body = \<lparr>pending = body, fault = None\<rparr>,
      ContentLength = - 1\<rparr>"

definition docker_request :: Request where
  "docker_request =
     \<lparr>Header = [''User-Agent'' \<mapsto> [''docker/19.03.8 go/go1.12.17'']],
      RequestURI = ''/v2/library/nginx/manifests/latest'',
      URL = ''/v2/library/nginx/manifests/latest'',
      Body = \<lparr>pending = [], fault = None\<rparr>,
      ContentLength = 0\<rparr>"


text \<open>
  Three parsers for the examples of the chain. Their state is a request together with a
  counter: \<open>counting_decliner\<close> declines and counts each of its invocations,
  \<open>always_matches\<close> returns a hit, \<open>fails_with msg\<close> returns the error \<open>msg\<close>.
\<close>

definition counting_decliner :: "(Request \<times> nat) Parser" where
  "counting_decliner s = ((RequestMeta_zero, None), (fst s, Suc (snd s)))"

definition always_matches :: "(Request \<times> nat) Parser" where
  "always_matches s =
     ((\<lparr>RegistryType = registryTypeImage, HasHit = True, Metadata = None\<rparr>, None), s)"

definition fails_with :: "string \<Rightarrow> (Request \<times> nat) Parser" where
  "fails_with msg s = ((RequestMeta_zero, Some msg), s)"

section \<open>Properties\<close>

subsection \<open>The pieces of a split\<close>

lemma Split_not_Nil: "sep \<noteq> [] \<Longrightarrow> Split s sep \<noteq> []"
  by (subst Split.simps) (simp split: option.splits)




subsection \<open>Registering preserves the invariant; the loop on a well-formed chain\<close>

lemma chain_path_bound: "chain_path h p as \<Longrightarrow> a \<in> set as \<Longrightarrow> a < length h"
  by (induction as arbitrary: p) auto

lemma chain_path_alloc: "chain_path h p as \<Longrightarrow> chain_path (h @ [c]) p as"
  by (induction as arbitrary: p) (auto simp: nth_append)

lemma chain_path_link:
  assumes "chain_path h p as" and "as \<noteq> []" and "distinct as"
    and "n < length h" and "n \<notin> set as" and "next (h ! n) = None"
  shows "chain_path (h[last as := (h ! last as)\<lparr>next := Some n\<rparr>]) p (as @ [n])"
  using assms
proof (induction as arbitrary: p)
  case Nil
  then show ?case by simp
next
  case (Cons a as)
  show ?case
  proof (cases "as = []")
    case True
    with Cons.prems show ?thesis by auto
  next
    case False
    with Cons.prems have "last (a # as) = last as" and "last as \<noteq> a"
      by auto
    with Cons.prems Cons.IH [of "next (h ! a)"] False show ?thesis
      by auto
  qed
qed

lemma parsers_of_link:
  "parsers_of (h[l := (h ! l)\<lparr>next := x\<rparr>]) as = parsers_of h as"
  by (cases "l < length h") (simp_all add: parsers_of_def nth_list_update not_less list_update_beyond)

lemma Register_None: "Register None st = Inr (Some ''nil parser'', st)"
  by (simp add: Register_def split: prod.splits)

lemma Register_Some:
  assumes "chain_inv (h, pc) as"
  shows "\<exists>h' pc'. Register (Some f) (h, pc) = Inr (None, (h', pc'))
           \<and> length h' = Suc (length h)
           \<and> chain_inv (h', pc') (as @ [length h])
           \<and> parsers_of h' (as @ [length h]) = parsers_of h as @ [Some f]"
proof (cases "as = []")
  case True
  with assms have "head pc = None" by (simp add: chain_inv_def)
  with True show ?thesis
    by (simp add: Register_def Let_def chain_inv_def parsers_of_def)
next
  case False
  let ?c = "\<lparr>parser = Some f, next = None\<rparr>"
  let ?l = "last as"
  let ?h = "(h @ [?c])[?l := ((h @ [?c]) ! ?l)\<lparr>next := Some (length h)\<rparr>]"
  from assms False have path: "chain_path h (head pc) as" and dist: "distinct as"
    and tl: "tail pc = Some ?l" and hd: "head pc \<noteq> None"
    by (auto simp: chain_inv_def neq_Nil_conv)
  have bound: "\<forall>a\<in>set as. a < length h"
    using path chain_path_bound by blast
  then have fresh: "length h \<notin> set as" and l: "?l < length h"
    using False by auto
  have reg: "Register (Some f) (h, pc) = Inr (None, (?h, pc\<lparr>tail := Some (length h)\<rparr>))"
    using hd tl l by (auto simp: Register_def Let_def)
  have "chain_path ?h (head pc) (as @ [length h])"
    using chain_path_link [OF chain_path_alloc [OF path, of ?c] False dist, of "length h"] fresh
    by simp
  then have inv: "chain_inv (?h, pc\<lparr>tail := Some (length h)\<rparr>) (as @ [length h])"
    using dist fresh by (simp add: chain_inv_def)
  have "parsers_of ?h (as @ [length h]) = parsers_of (h @ [?c]) (as @ [length h])"
    by (rule parsers_of_link)
  also have "\<dots> = parsers_of h as @ [Some f]"
    using bound by (simp add: parsers_of_def nth_append)
  finally show ?thesis using reg inv by simp
qed

lemma Parse_loop_path:
  "chain_path h p as \<Longrightarrow> Parse_loop h p req errs = Some (Parse_seq (parsers_of h as) req errs)"
proof (induction as arbitrary: p req errs)
  case Nil
  then show ?case by (subst Parse_loop.simps) (simp add: parsers_of_def)
next
  case (Cons a as)
  then have p: "p = Some a" and rest: "chain_path h (next (h ! a)) as"
    by simp_all
  show ?case
    unfolding p
    by (subst Parse_loop.simps)
      (simp add: parsers_of_def Cons.IH [OF rest, unfolded parsers_of_def]
        split: option.splits prod.splits)
qed

lemma Parse_chain:
  assumes "chain_inv st as" and "as \<noteq> []"
  shows "Parse st req = Some (Parse_seq (parsers_of (fst st) as) req [])"
  using assms
  by (cases st) (auto simp: Parse_def chain_inv_def neq_Nil_conv Parse_loop_path [where errs = "[]"])

lemma Parse_seq_never_hit:
  "never_hit fs req \<Longrightarrow>
   Parse_seq (map Some fs) req errs =
     ((RequestMeta_zero, Some (''no hit:'' @ Join (errs @ fst (run_all fs req)) '';'')),
      snd (run_all fs req))"
  by (induction fs arbitrary: req errs) (auto split: prod.splits option.splits)

lemma Parse_seq_first_hit:
  "never_hit pre req \<Longrightarrow> f (snd (run_all pre req)) = ((meta, None), req') \<Longrightarrow> HasHit meta \<Longrightarrow>
   Parse_seq (map Some (pre @ f # post)) req errs = ((meta, None), req')"
  by (induction pre arbitrary: req errs) (auto split: prod.splits option.splits)

subsection \<open>The npm parser\<close>

lemma example_user_agent: "Contains ''npm/6.14.8 node/v12.18.3 linux x64'' ''npm''"
  by code_simp

lemma example_not_npm: "\<not> Contains ''docker/19.03.8 go/go1.12.17'' ''npm''"
  by code_simp

lemma example_install:
  "Split ''install some-pkg --save'' '' '' = [''install'', ''some-pkg'', ''--save'']"
  "TrimSpace ''install'' = ''install''"
  "TrimPrefix ''install some-pkg --save'' ''install'' = '' some-pkg --save''"
  "TrimSpace '' some-pkg --save'' = ''some-pkg --save''"
  by code_simp+

lemma example_publish:
  "Split ''publish'' '' '' = [''publish'']"
  "TrimSpace ''publish'' = ''publish''"
  "TrimPrefix ''publish'' ''publish'' = []"
  "TrimSpace [] = []"
  "Itoa 32 = ''32''"
  by code_simp+


lemma npm_request_headers:
  "Header_Get (Header (npm_request cmd b)) ''User-Agent'' = ''npm/6.14.8 node/v12.18.3 linux x64''"
  "Header_Get (Header (npm_request cmd b)) ''Referer'' = cmd"
  "Header_Get (Header (npm_request cmd b)) ''Npm-Session'' = ''1f2e3d4c5b6a7988''"
  by (simp_all add: npm_request_def Header_Get_def)

text \<open>
  Claim C7. For every request whose \<^verbatim>\<open>User-Agent\<close> header does not contain \<^verbatim>\<open>npm\<close>, and
  for every request that carries the marker but whose \<^verbatim>\<open>Referer\<close> header is absent or
  empty (\<open>Header_Get\<close> returns the empty string in both cases), \<open>NpmParser\<close> returns the
  zero \<^verbatim>\<open>RequestMeta\<close>, whose \<^verbatim>\<open>HasHit\<close> is false, with a \<^verbatim>\<open>nil\<close> error, and leaves the
  request as it was.
\<close>

theorem NpmParser_declines:
  assumes "\<not> Contains (Header_Get (Header req) ''User-Agent'') ''npm''
           \<or> Header req ''Referer'' = None
           \<or> Header_Get (Header req) ''Referer'' = []"
  shows "NpmParser json_Unmarshal req = ((RequestMeta_zero, None), req)
         \<and> \<not> HasHit RequestMeta_zero"
  using assms by (auto simp: NpmParser_def RequestMeta_zero_def Header_Get_def)

theorem NpmParser_declines_witness:
  "\<not> Contains (Header_Get (Header docker_request) ''User-Agent'') ''npm''
   \<and> NpmParser example_Unmarshal docker_request = ((RequestMeta_zero, None), docker_request)
   \<and> Contains (Header_Get (Header (npm_request [] [])) ''User-Agent'') ''npm''
   \<and> Header_Get (Header (npm_request [] [])) ''Referer'' = []
   \<and> NpmParser example_Unmarshal (npm_request [] []) = ((RequestMeta_zero, None), npm_request [] [])
   \<and> Contains (Header_Get (Header (docker_request\<lparr>Header := [''User-Agent'' \<mapsto> [''npm/6.14.8'']]\<rparr>))
         ''User-Agent'') ''npm''
   \<and> Header (docker_request\<lparr>Header := [''User-Agent'' \<mapsto> [''npm/6.14.8'']]\<rparr>) ''Referer'' = None
   \<and> NpmParser example_Unmarshal (docker_request\<lparr>Header := [''User-Agent'' \<mapsto> [''npm/6.14.8'']]\<rparr>)
       = ((RequestMeta_zero, None), docker_request\<lparr>Header := [''User-Agent'' \<mapsto> [''npm/6.14.8'']]\<rparr>)"
proof -
  have ua: "Header_Get (Header docker_request) ''User-Agent'' = ''docker/19.03.8 go/go1.12.17''"
    "Header_Get [''User-Agent'' \<mapsto> [''npm/6.14.8'']] ''User-Agent'' = ''npm/6.14.8''"
    by (simp_all add: docker_request_def Header_Get_def)
  have npm: "Contains ''npm/6.14.8'' ''npm''"
    by code_simp
  show ?thesis
    using NpmParser_declines [of docker_request example_Unmarshal]
      NpmParser_declines [of "npm_request [] []" example_Unmarshal]
      NpmParser_declines [of "docker_request\<lparr>Header := [''User-Agent'' \<mapsto> [''npm/6.14.8'']]\<rparr>"
        example_Unmarshal]
    by (simp add: ua npm example_not_npm example_user_agent npm_request_headers)
qed

text \<open>
  Claim C10. For every request whose \<^verbatim>\<open>User-Agent\<close> contains \<^verbatim>\<open>npm\<close> and whose \<^verbatim>\<open>Referer\<close>
  is not empty, if the parsed command is not \<^verbatim>\<open>publish\<close> then \<open>NpmParser\<close> returns a hit
  with a \<^verbatim>\<open>nil\<close> error and the request it leaves is the request it received: the body is
  not read, and no field is written.
\<close>

theorem NpmParser_other_command_frame:
  assumes "Contains (Header_Get (Header req) ''User-Agent'') ''npm''"
    and "Header_Get (Header req) ''Referer'' \<noteq> []"
    and "TrimSpace (Split (Header_Get (Header req) ''Referer'') '' '' ! 0) \<noteq> ''publish''"
  shows "\<exists>meta. NpmParser json_Unmarshal req = ((meta, None), req) \<and> HasHit meta"
  using assms by (simp add: NpmParser_def Let_def)

theorem NpmParser_other_command_frame_witness:
  "Contains (Header_Get (Header (npm_request ''install some-pkg --save'' ''abc'')) ''User-Agent'') ''npm''
   \<and> Header_Get (Header (npm_request ''install some-pkg --save'' ''abc'')) ''Referer'' \<noteq> []
   \<and> TrimSpace (Split (Header_Get (Header (npm_request ''install some-pkg --save'' ''abc'')) ''Referer'') '' '' ! 0)
       \<noteq> ''publish''
   \<and> (\<exists>meta. NpmParser example_Unmarshal (npm_request ''install some-pkg --save'' ''abc'')
                 = ((meta, None), npm_request ''install some-pkg --save'' ''abc'')
              \<and> HasHit meta)"
  using NpmParser_other_command_frame [of "npm_request ''install some-pkg --save'' ''abc''" example_Unmarshal]
  by (simp add: npm_request_headers example_user_agent example_install)

text \<open>
  Claim C1. For every request of an npm client whose command is \<^verbatim>\<open>publish\<close> and whose body
  is read without error and decodes as a manifest, \<open>NpmParser\<close> returns a hit whose
  \<^verbatim>\<open>extra\<close> attribute is the manifest's \<^verbatim>\<open>dist-tags.latest\<close>, and installs on the request
  a fresh body holding the bytes it consumed: reading the body again to its end yields
  exactly the original bytes, and both the \<^verbatim>\<open>ContentLength\<close> field and the
  \<^verbatim>\<open>Content-Length\<close> header are the number of those bytes.
\<close>

theorem NpmParser_publish:
  assumes "Contains (Header_Get (Header req) ''User-Agent'') ''npm''"
    and "Header_Get (Header req) ''Referer'' \<noteq> []"
    and "TrimSpace (Split (Header_Get (Header req) ''Referer'') '' '' ! 0) = ''publish''"
    and "fault (Body req) = None"
    and "json_Unmarshal (pending (Body req)) = Inr manifest"
  shows "\<exists>meta attrs req'.
           NpmParser json_Unmarshal req = ((meta, None), req')
           \<and> HasHit meta
           \<and> Metadata meta = Some attrs
           \<and> attrs ''extra'' = Some (Latest (Tags manifest))
           \<and> Body req' = NopCloser (pending (Body req))
           \<and> fst (ReadAll (Body req')) = (pending (Body req), None)
           \<and> ContentLength req' = int (length (pending (Body req)))
           \<and> Header_Get (Header req') ''Content-Length'' = Itoa (int (length (pending (Body req))))"
  using assms
  by (simp add: NpmParser_def Let_def ReadAll_def NopCloser_def Header_Get_def Header_Set_def)

theorem NpmParser_publish_witness:
  "Contains (Header_Get (Header (npm_request ''publish'' example_manifest)) ''User-Agent'') ''npm''
   \<and> Header_Get (Header (npm_request ''publish'' example_manifest)) ''Referer'' = ''publish''
   \<and> fault (Body (npm_request ''publish'' example_manifest)) = None
   \<and> example_Unmarshal (pending (Body (npm_request ''publish'' example_manifest)))
       = Inr \<lparr>Tags = \<lparr>Latest = ''2.3.1''\<rparr>\<rparr>
   \<and> (\<exists>meta attrs req'.
         NpmParser example_Unmarshal (npm_request ''publish'' example_manifest) = ((meta, None), req')
         \<and> HasHit meta
         \<and> Metadata meta = Some attrs
         \<and> attrs ''extra'' = Some ''2.3.1''
         \<and> Body req' = NopCloser example_manifest
         \<and> fst (ReadAll (Body req')) = (example_manifest, None)
         \<and> ContentLength req' = 32
         \<and> Header_Get (Header req') ''Content-Length'' = ''32'')"
proof -
  have body: "pending (Body (npm_request ''publish'' example_manifest)) = example_manifest"
    "fault (Body (npm_request ''publish'' example_manifest)) = None"
    by (simp_all add: npm_request_def)
  have len: "length example_manifest = 32"
    by (simp add: example_manifest_def)
  show ?thesis
    using NpmParser_publish [of "npm_request ''publish'' example_manifest" example_Unmarshal
        "\<lparr>Tags = \<lparr>Latest = ''2.3.1''\<rparr>\<rparr>"]
    by (simp add: npm_request_headers example_user_agent example_publish body len
        example_Unmarshal_def)
qed

text \<open>
  Claim C2 asks that, when the body of a \<^verbatim>\<open>publish\<close> request does not decode, the error
  is returned with the original bytes restored on the request. The code returns the
  decoding error before the statements that install the fresh body: the request is left
  with the stream \<^verbatim>\<open>ioutil.ReadAll\<close> has read to its end, and a second read yields no
  byte.
\<close>

theorem NpmParser_malformed_publish:
  assumes "Contains (Header_Get (Header req) ''User-Agent'') ''npm''"
    and "Header_Get (Header req) ''Referer'' \<noteq> []"
    and "TrimSpace (Split (Header_Get (Header req) ''Referer'') '' '' ! 0) = ''publish''"
    and "fault (Body req) = None"
    and "json_Unmarshal (pending (Body req)) = Inl err"
  shows "NpmParser json_Unmarshal req
           = ((RequestMeta_zero, Some err), req\<lparr>Body := \<lparr>pending = [], fault = None\<rparr>\<rparr>)
         \<and> fst (ReadAll (Body (snd (NpmParser json_Unmarshal req)))) = ([], None)"
  using assms by (simp add: NpmParser_def Let_def ReadAll_def)

theorem NpmParser_malformed_publish_witness:
  "pending (Body (npm_request ''publish'' ''{\"dist-tags\":'')) = ''{\"dist-tags\":''
   \<and> NpmParser example_Unmarshal (npm_request ''publish'' ''{\"dist-tags\":'')
       = ((RequestMeta_zero, Some ''unexpected end of JSON input''),
          (npm_request ''publish'' ''{\"dist-tags\":'')\<lparr>Body := \<lparr>pending = [], fault = None\<rparr>\<rparr>)
   \<and> fst (ReadAll (Body (snd (NpmParser example_Unmarshal (npm_request ''publish'' ''{\"dist-tags\":'')))))
       = ([], None)"
proof -
  have body: "pending (Body (npm_request ''publish'' ''{\"dist-tags\":'')) = ''{\"dist-tags\":''"
    "fault (Body (npm_request ''publish'' ''{\"dist-tags\":'')) = None"
    by (simp_all add: npm_request_def)
  have um: "example_Unmarshal ''{\"dist-tags\":'' = Inl ''unexpected end of JSON input''"
    by (simp add: example_Unmarshal_def example_manifest_def)
  show ?thesis
    using NpmParser_malformed_publish [of "npm_request ''publish'' ''{\"dist-tags\":''"
        example_Unmarshal "''unexpected end of JSON input''"]
    by (simp add: npm_request_headers example_user_agent example_publish body um ReadAll_def)
qed






subsection \<open>The chain\<close>

text \<open>
  Claim C8. For every request, \<open>Parse\<close> on a chain with no registered parser
  (\<^verbatim>\<open>pc.head == nil\<close>) returns the zero \<^verbatim>\<open>RequestMeta\<close> with the error \<^verbatim>\<open>no parsers\<close> at
  once: whatever the store holds, no parser is invoked and the request is left as it was.
\<close>

theorem Parse_empty_chain:
  assumes "head pc = None"
  shows "Parse (h, pc) req = Some ((RequestMeta_zero, Some ''no parsers''), req)"
  using assms by (simp add: Parse_def)

theorem Parse_empty_chain_witness:
  "head \<lparr>head = None, tail = None\<rparr> = None
   \<and> Parse ([\<lparr>parser = Some HarborParser, next = None\<rparr>], \<lparr>head = None, tail = None\<rparr>) docker_request
       = Some ((RequestMeta_zero, Some ''no parsers''), docker_request)"
  using Parse_empty_chain [of "\<lparr>head = None, tail = None\<rparr>"
      "[\<lparr>parser = Some HarborParser, next = None\<rparr>]" docker_request]
  by simp

text \<open>
  Claim C9. \<open>Register\<close> with the \<^verbatim>\<open>nil\<close> parser returns the error \<^verbatim>\<open>nil parser\<close> and leaves
  the store and the chain exactly as they were; \<open>Register\<close> with a parser \<open>f\<close>, on a
  well-formed chain of wrappers \<open>as\<close>, returns no error and leaves a well-formed chain
  with one new wrapper at the end, whose list of parsers is the old list followed by \<open>f\<close>.
\<close>

theorem Register_nil_or_append:
  "Register None st = Inr (Some ''nil parser'', st)
   \<and> (chain_inv (h, pc) as \<longrightarrow>
        (\<exists>h' pc'. Register (Some f) (h, pc) = Inr (None, (h', pc'))
           \<and> chain_inv (h', pc') (as @ [length h])
           \<and> parsers_of h' (as @ [length h]) = parsers_of h as @ [Some f]))"
  using Register_None [of st] Register_Some [of h pc as f] by blast

theorem Register_nil_or_append_witness:
  "Register None ([\<lparr>parser = Some HarborParser, next = None\<rparr>], \<lparr>head = Some 0, tail = Some 0\<rparr>)
     = Inr (Some ''nil parser'',
            ([\<lparr>parser = Some HarborParser, next = None\<rparr>], \<lparr>head = Some 0, tail = Some 0\<rparr>))
   \<and> chain_inv ([\<lparr>parser = Some HarborParser, next = None\<rparr>], \<lparr>head = Some 0, tail = Some 0\<rparr>) [0]
   \<and> (\<exists>h' pc'. Register (Some (NpmParser example_Unmarshal))
                   ([\<lparr>parser = Some HarborParser, next = None\<rparr>], \<lparr>head = Some 0, tail = Some 0\<rparr>)
                 = Inr (None, (h', pc'))
          \<and> chain_inv (h', pc') [0, 1]
          \<and> parsers_of h' [0, 1] = [Some HarborParser, Some (NpmParser example_Unmarshal)])"
  using Register_nil_or_append [of
      "([\<lparr>parser = Some HarborParser, next = None\<rparr>], \<lparr>head = Some 0, tail = Some 0\<rparr>)"
      "[\<lparr>parser = Some HarborParser, next = None\<rparr>]" "\<lparr>head = Some 0, tail = Some 0\<rparr>" "[0]"
      "NpmParser example_Unmarshal"]
  by (simp add: chain_inv_def parsers_of_def)

text \<open>An empty chain is well formed, and two registrations on it give a chain of two.\<close>

lemma chain_inv_empty: "head pc = None \<Longrightarrow> chain_inv (h, pc) []"
  by (simp add: chain_inv_def)

lemma Register_two:
  assumes "head pc = None"
  shows "\<exists>st1 st2. Register (Some f) (h, pc) = Inr (None, st1)
           \<and> Register (Some g) st1 = Inr (None, st2)
           \<and> chain_inv st2 [length h, Suc (length h)]
           \<and> parsers_of (fst st2) [length h, Suc (length h)] = [Some f, Some g]"
proof -
  from Register_Some [where f = f, OF chain_inv_empty [OF assms, of h]]
  obtain h1 pc1 where r1: "Register (Some f) (h, pc) = Inr (None, (h1, pc1))"
    and l1: "length h1 = Suc (length h)"
    and i1: "chain_inv (h1, pc1) [length h]"
    and p1: "parsers_of h1 [length h] = [Some f]"
    by (auto simp: parsers_of_def)
  from Register_Some [where f = g, OF i1]
  obtain h2 pc2 where r2: "Register (Some g) (h1, pc1) = Inr (None, (h2, pc2))"
    and i2: "chain_inv (h2, pc2) [length h, Suc (length h)]"
    and p2: "parsers_of h2 [length h, Suc (length h)] = [Some f, Some g]"
    using l1 p1 by auto
  from r1 r2 i2 p2 show ?thesis by auto
qed




text \<open>
  Claim C4. Let the chain hold the parsers \<open>fs\<close>, at least one. If none of them returns
  a hit when they are invoked in turn, \<open>Parse\<close> invokes them all, whichever of them
  return errors, and fails with the error \<^verbatim>\<open>no hit:\<close> followed by the messages of the
  errors in order, joined with \<^verbatim>\<open>;\<close>; when none of them returned an error the message is
  \<^verbatim>\<open>no hit:\<close> alone. An error does not end the walk: if the parsers \<open>pre\<close> before \<open>f\<close>
  return errors or decline and \<open>f\<close> then returns a hit, \<open>Parse\<close> returns that hit.
\<close>

theorem Parse_no_hit_aggregates:
  assumes "chain_inv st as"
    and "parsers_of (fst st) as = map Some fs"
    and "fs \<noteq> []"
  shows "(never_hit fs req \<longrightarrow>
            Parse st req
              = Some ((RequestMeta_zero, Some (''no hit'' @ '':'' @ Join (fst (run_all fs req)) '';'')),
                      snd (run_all fs req)))
       \<and> (never_hit fs req \<and> fst (run_all fs req) = [] \<longrightarrow>
            Parse st req = Some ((RequestMeta_zero, Some ''no hit:''), snd (run_all fs req)))
       \<and> (fs = pre @ f # post \<and> never_hit pre req
            \<and> f (snd (run_all pre req)) = ((meta, None), req') \<and> HasHit meta \<longrightarrow>
            Parse st req = Some ((meta, None), req'))"
proof -
  from assms(2,3) have "as \<noteq> []"
    by (auto simp: parsers_of_def)
  from Parse_chain [OF assms(1) this, of req] assms(2)
  have run: "Parse st req = Some (Parse_seq (map Some fs) req [])"
    by simp
  show ?thesis
    using Parse_seq_never_hit [of fs req "[]"]
      Parse_seq_first_hit [of pre req f meta req' post "[]"]
    by (auto simp: run)
qed

theorem Parse_no_hit_aggregates_witness:
  "chain_inv ([\<lparr>parser = Some (fails_with ''bad manifest''), next = Some 1\<rparr>,
               \<lparr>parser = Some counting_decliner, next = Some 2\<rparr>,
               \<lparr>parser = Some (fails_with ''unreadable body''), next = None\<rparr>],
              \<lparr>head = Some 0, tail = Some 2\<rparr>) [0, 1, 2]
   \<and> never_hit [fails_with ''bad manifest'', counting_decliner, fails_with ''unreadable body'']
        (docker_request, 0)
   \<and> Parse ([\<lparr>parser = Some (fails_with ''bad manifest''), next = Some 1\<rparr>,
             \<lparr>parser = Some counting_decliner, next = Some 2\<rparr>,
             \<lparr>parser = Some (fails_with ''unreadable body''), next = None\<rparr>],
            \<lparr>head = Some 0, tail = Some 2\<rparr>) (docker_request, 0)
       = Some ((RequestMeta_zero, Some ''no hit:bad manifest;unreadable body''), (docker_request, 1))
   \<and> chain_inv ([\<lparr>parser = Some counting_decliner, next = Some 1\<rparr>,
                 \<lparr>parser = Some counting_decliner, next = None\<rparr>],
                \<lparr>head = Some 0, tail = Some 1\<rparr>) [0, 1]
   \<and> fst (run_all [counting_decliner, counting_decliner] (docker_request, 0)) = []
   \<and> Parse ([\<lparr>parser = Some counting_decliner, next = Some 1\<rparr>,
             \<lparr>parser = Some counting_decliner, next = None\<rparr>],
            \<lparr>head = Some 0, tail = Some 1\<rparr>) (docker_request, 0)
       = Some ((RequestMeta_zero, Some ''no hit:''), (docker_request, 2))
   \<and> chain_inv ([\<lparr>parser = Some (fails_with ''bad manifest''), next = Some 1\<rparr>,
                 \<lparr>parser = Some always_matches, next = Some 2\<rparr>,
                 \<lparr>parser = Some counting_decliner, next = None\<rparr>],
                \<lparr>head = Some 0, tail = Some 2\<rparr>) [0, 1, 2]
   \<and> Parse ([\<lparr>parser = Some (fails_with ''bad manifest''), next = Some 1\<rparr>,
             \<lparr>parser = Some always_matches, next = Some 2\<rparr>,
             \<lparr>parser = Some counting_decliner, next = None\<rparr>],
            \<lparr>head = Some 0, tail = Some 2\<rparr>) (docker_request, 0)
       = Some ((\<lparr>RegistryType = ''harbor'', HasHit = True, Metadata = None\<rparr>, None),
               (docker_request, 0))"
  using Parse_no_hit_aggregates [of
      "([\<lparr>parser = Some (fails_with ''bad manifest''), next = Some 1\<rparr>,
         \<lparr>parser = Some counting_decliner, next = Some 2\<rparr>,
         \<lparr>parser = Some (fails_with ''unreadable body''), next = None\<rparr>],
        \<lparr>head = Some 0, tail = Some 2\<rparr>)" "[0, 1, 2]"
      "[fails_with ''bad manifest'', counting_decliner, fails_with ''unreadable body'']"
      "(docker_request, 0)" "[]" "fails_with ''bad manifest''" "[]" RequestMeta_zero "(docker_request, 0)"]
    Parse_no_hit_aggregates [of
      "([\<lparr>parser = Some counting_decliner, next = Some 1\<rparr>,
         \<lparr>parser = Some counting_decliner, next = None\<rparr>],
        \<lparr>head = Some 0, tail = Some 1\<rparr>)" "[0, 1]"
      "[counting_decliner, counting_decliner]"
      "(docker_request, 0)" "[]" counting_decliner "[]" RequestMeta_zero "(docker_request, 0)"]
    Parse_no_hit_aggregates [of
      "([\<lparr>parser = Some (fails_with ''bad manifest''), next = Some 1\<rparr>,
         \<lparr>parser = Some always_matches, next = Some 2\<rparr>,
         \<lparr>parser = Some counting_decliner, next = None\<rparr>],
        \<lparr>head = Some 0, tail = Some 2\<rparr>)" "[0, 1, 2]"
      "[fails_with ''bad manifest'', always_matches, counting_decliner]"
      "(docker_request, 0)" "[fails_with ''bad manifest'']" always_matches "[counting_decliner]"
      "\<lparr>RegistryType = ''harbor'', HasHit = True, Metadata = None\<rparr>" "(docker_request, 0)"]
  by (simp add: chain_inv_def parsers_of_def counting_decliner_def always_matches_def
      fails_with_def RequestMeta_zero_def registryTypeImage_def)

text \<open>
  Claim C5. \<open>Init\<close>, from any store and chain, returns no error and leaves a chain of
  two wrappers holding \<open>NpmParser\<close> and then \<open>HarborParser\<close>. On that chain \<open>Parse\<close>
  applied to a request whose \<^verbatim>\<open>User-Agent\<close> does not contain \<^verbatim>\<open>npm\<close> returns the result
  of \<open>HarborParser\<close>: a hit of registry type \<open>registryTypeImage\<close> with no error. And
  \<open>HarborParser\<close> returns that hit, with no error, for every request.
\<close>

theorem Init_falls_back_to_HarborParser:
  "\<exists>st. Init json_Unmarshal (h, pc) = Inr (None, st)
      \<and> chain_inv st [length h, Suc (length h)]
      \<and> parsers_of (fst st) [length h, Suc (length h)]
          = [Some (NpmParser json_Unmarshal), Some HarborParser]
      \<and> (\<not> Contains (Header_Get (Header req) ''User-Agent'') ''npm'' \<longrightarrow>
           Parse st req
             = Some ((\<lparr>RegistryType = registryTypeImage, HasHit = True, Metadata = None\<rparr>, None), req))
      \<and> HarborParser req'
          = ((\<lparr>RegistryType = registryTypeImage, HasHit = True, Metadata = None\<rparr>, None), req')"
proof -
  let ?pc = "pc\<lparr>head := None, tail := None\<rparr>"
  have "head ?pc = None" by simp
  from Register_two [where f = "NpmParser json_Unmarshal" and g = HarborParser and h = h, OF this]
  obtain st1 st2 where r1: "Register (Some (NpmParser json_Unmarshal)) (h, ?pc) = Inr (None, st1)"
    and r2: "Register (Some HarborParser) st1 = Inr (None, st2)"
    and inv: "chain_inv st2 [length h, Suc (length h)]"
    and ps: "parsers_of (fst st2) [length h, Suc (length h)]
               = [Some (NpmParser json_Unmarshal), Some HarborParser]"
    by blast
  have init: "Init json_Unmarshal (h, pc) = Inr (None, st2)"
    using r1 r2 by (simp add: Init_def)
  have "Parse st2 req
          = Some ((\<lparr>RegistryType = registryTypeImage, HasHit = True, Metadata = None\<rparr>, None), req)"
    if "\<not> Contains (Header_Get (Header req) ''User-Agent'') ''npm''"
    using Parse_chain [OF inv, of req] ps that
    by (simp add: NpmParser_def HarborParser_def RequestMeta_zero_def)
  with init inv ps show ?thesis
    by (auto simp: HarborParser_def)
qed

theorem Init_falls_back_to_HarborParser_witness:
  "\<not> Contains (Header_Get (Header docker_request) ''User-Agent'') ''npm''
   \<and> (\<exists>st. Init example_Unmarshal ([], \<lparr>head = None, tail = None\<rparr>) = Inr (None, st)
         \<and> chain_inv st [0, 1]
         \<and> parsers_of (fst st) [0, 1] = [Some (NpmParser example_Unmarshal), Some HarborParser]
         \<and> Parse st docker_request
             = Some ((\<lparr>RegistryType = ''harbor'', HasHit = True, Metadata = None\<rparr>, None),
                     docker_request)
         \<and> HarborParser docker_request
             = ((\<lparr>RegistryType = ''harbor'', HasHit = True, Metadata = None\<rparr>, None),
                docker_request))"
proof -
  have ua: "Header_Get (Header docker_request) ''User-Agent'' = ''docker/19.03.8 go/go1.12.17''"
    by (simp add: docker_request_def Header_Get_def)
  show ?thesis
    using Init_falls_back_to_HarborParser [of example_Unmarshal "[]" "\<lparr>head = None, tail = None\<rparr>"
        docker_request docker_request]
    by (simp add: ua example_not_npm registryTypeImage_def)
qed

end
